theory Spec2Isabelle
  imports Complex_Main "HOL-Library.Log_Nat"
begin

section \<open>Python strings\<close>

text \<open>
  A Python \<open>str\<close> is a sequence of Unicode code points, so a string is a list of code
  points (natural numbers) here; \<open>len\<close> counts code points. ASCII literals of the source
  are written \<open>ascii ''...''\<close>.
\<close>

type_synonym pystr = "nat list"

definition ascii :: "string \<Rightarrow> pystr" where
  "ascii s = map of_char s"

text \<open>
  \<open>str.isspace\<close> on one code point, which is what \<open>str.strip()\<close> without an argument
  removes: the code points CPython's \<open>_PyUnicode_IsWhitespace\<close> lists.
\<close>

definition isspace :: "nat \<Rightarrow> bool" where
  "isspace c = (c \<in> set [0x09, 0x0A, 0x0B, 0x0C, 0x0D, 0x1C, 0x1D, 0x1E, 0x1F, 0x20,
      0x85, 0xA0, 0x1680, 0x2000, 0x2001, 0x2002, 0x2003, 0x2004, 0x2005, 0x2006,
      0x2007, 0x2008, 0x2009, 0x200A, 0x2028, 0x2029, 0x202F, 0x205F, 0x3000])"

text \<open>\<open>s.strip()\<close>: leading and trailing whitespace removed.\<close>

definition strip :: "pystr \<Rightarrow> pystr" where
  "strip s = rev (dropWhile isspace (rev (dropWhile isspace s)))"

text \<open>Truth value of a string: a string is falsy exactly when it is empty.\<close>

definition truthy :: "pystr \<Rightarrow> bool" where
  "truthy s = (s \<noteq> [])"




section \<open>Records and the session state\<close>

text \<open>
  The dictionary \<open>person\<close> built by \<open>add_person\<close> always has the same six keys, so it is a
  record; \<open>person_items\<close> gives it back as the dictionary it is, in insertion order of the
  keys.
\<close>

record person =
  First_Name :: pystr
  Last_Name :: pystr
  Age :: int
  Job_Title :: pystr
  City :: pystr
  State :: pystr

text \<open>
  \<open>st.session_state\<close>: the three keys \<open>__init__\<close> creates, and \<open>confirm_clear\<close>, which is
  absent until the clear button sets it (read with \<open>.get('confirm_clear', False)\<close>).
\<close>

record session_state =
  people_data :: "person list"
  success_message :: pystr
  error_message :: pystr
  confirm_clear :: "bool option"

definition init_state :: session_state where
  "init_state = \<lparr>people_data = [], success_message = [], error_message = [],
     confirm_clear = None\<rparr>"

section \<open>StreamlitPeopleManager\<close>

definition add_person ::
  "session_state \<Rightarrow> pystr \<Rightarrow> pystr \<Rightarrow> int \<Rightarrow> pystr \<Rightarrow> pystr \<Rightarrow> pystr \<Rightarrow> session_state \<times> bool" where
  "add_person st first_name last_name age job_title city state =
     (let person = \<lparr>First_Name = strip first_name, Last_Name = strip last_name, Age = age,
                     Job_Title = strip job_title, City = strip city, State = strip state\<rparr>
      in (st\<lparr>people_data := people_data st @ [person],
             success_message := [0x2705] @ ascii '' Added '' @ first_name @ ascii '' ''
                @ last_name @ ascii '' successfully!'',
             error_message := []\<rparr>, True))"

definition validate_input ::
  "pystr \<Rightarrow> pystr \<Rightarrow> int \<Rightarrow> pystr \<Rightarrow> pystr \<Rightarrow> pystr \<Rightarrow> bool \<times> pystr" where
  "validate_input first_name last_name age job_title city state =
     (if \<not> list_all truthy [strip first_name, strip last_name, strip job_title,
                              strip city, strip state]
      then (False, ascii ''Please fill in all fields!'')
      else if age < 1 \<or> age > 120
      then (False, ascii ''Please enter a valid age (1-120)!'')
      else (True, []))"

definition clear_messages :: "session_state \<Rightarrow> session_state" where
  "clear_messages st = st\<lparr>success_message := [], error_message := []\<rparr>"

subsection \<open>Floats\<close>

text \<open>
  A Python \<open>float\<close> is an IEEE 754 binary64 number; a finite one is modelled by the rational
  number it is. \<open>rne\<close> rounds a rational to the nearest integer, a tie to the even one.
  \<open>ilog2 a b\<close> is the integer \<open>k\<close> with \<open>2^k \<le> a/b < 2^(k+1)\<close>, for positive \<open>a\<close> and
  \<open>b\<close>. \<open>round_double a b\<close> is the binary64 number nearest to \<open>a/b\<close> (\<open>b\<close> positive), a
  tie to the even significand: 53 significant bits, least exponent \<open>-1074\<close>, with no
  upper bound on the exponent (the caller checks for overflow).
\<close>

definition rne :: "rat \<Rightarrow> int" where
  "rne x = (let f = \<lfloor>x\<rfloor>; d = x - of_int f
            in if d < 1 / 2 then f else if 1 / 2 < d then f + 1
               else if even f then f else f + 1)"

definition ilog2 :: "int \<Rightarrow> int \<Rightarrow> int" where
  "ilog2 a b = (let k = bitlen a - bitlen b
                in if of_int b * 2 powi k \<le> (of_int a :: rat) then k else k - 1)"

definition round_double :: "int \<Rightarrow> int \<Rightarrow> rat" where
  "round_double a b =
     (if a = 0 then 0
      else let e = max (ilog2 \<bar>a\<bar> b - 52) (- 1074)
           in of_int (rne (of_int a / (of_int b * 2 powi e))) * 2 powi e)"

datatype py_error = ZeroDivisionError | OverflowError

text \<open>
  \<open>a / b\<close> on two Python integers: the correctly rounded quotient, \<open>OverflowError\<close> when
  it is too large for a float.
\<close>

definition truediv :: "int \<Rightarrow> int \<Rightarrow> py_error + rat" where
  "truediv a b =
     (if b = 0 then Inl ZeroDivisionError
      else let x = (if 0 < b then round_double a b else round_double (- a) (- b))
           in if 2 ^ 1024 \<le> \<bar>x\<bar> then Inl OverflowError else Inr x)"

text \<open>
  \<open>round(x, 1)\<close> on a float: CPython writes the exact value of \<open>x\<close> as a decimal with one
  digit after the point, correctly rounded (a tie of the exact value to the even digit),
  and reads that decimal back as the nearest float.
\<close>

definition round1 :: "rat \<Rightarrow> rat" where
  "round1 x = round_double (rne (10 * x)) 10"

text \<open>A number \<open>get_statistics\<close> returns as the average: the integer \<open>0\<close> or a float.\<close>

datatype pynum = PyInt int | PyFloat rat

definition get_statistics :: "session_state \<Rightarrow> py_error + (int \<times> pynum \<times> int)" where
  "get_statistics st =
     (if people_data st = [] then Inr (0, PyInt 0, 0)
      else let total_count = int (length (people_data st))
           in case truediv (sum_list (map Age (people_data st))) total_count of
                Inl err \<Rightarrow> Inl err
              | Inr avg_age \<Rightarrow>
                  Inr (total_count, PyFloat (round1 avg_age),
                       int (card (set (map State (people_data st))))))"

subsection \<open>Exporters\<close>


















section \<open>The handlers of main\<close>

text \<open>The body of \<open>if submitted:\<close> in the form.\<close>

definition submit_form ::
  "session_state \<Rightarrow> pystr \<Rightarrow> pystr \<Rightarrow> int \<Rightarrow> pystr \<Rightarrow> pystr \<Rightarrow> pystr \<Rightarrow> session_state" where
  "submit_form st first_name last_name age job_title city state =
     (let st1 = clear_messages st;
          (is_valid, error_msg) = validate_input first_name last_name age job_title city state
      in if is_valid then fst (add_person st1 first_name last_name age job_title city state)
         else st1\<lparr>error_message := error_msg\<rparr>)"

text \<open>The body of the \<open>Clear All Data\<close> button.\<close>

definition click_clear :: "session_state \<Rightarrow> session_state" where
  "click_clear st =
     (if (case confirm_clear st of None \<Rightarrow> False | Some b \<Rightarrow> b)
      then st\<lparr>people_data := [],
              success_message := ascii ''All data cleared successfully!'',
              confirm_clear := Some False\<rparr>
      else st\<lparr>confirm_clear := Some True\<rparr>)"

text \<open>
  One run of \<open>main\<close> for one interaction of the user. The clear button is on the page only
  while the store is non-empty (\<open>if st.session_state.people_data:\<close>), so a click on it
  cannot happen otherwise. Every other interaction (a download button, a rerun of the
  page) runs \<open>main\<close> with no handler firing. The number input of the form keeps the
  age an integer within 1..120; the handler is modelled for every integer age, as
  \<open>validate_input\<close> checks the range itself.
\<close>

datatype event = Submit pystr pystr int pystr pystr pystr | ClearClick | Other

fun main_run :: "session_state \<Rightarrow> event \<Rightarrow> session_state option" where
  "main_run st (Submit first_name last_name age job_title city state) =
     Some (submit_form st first_name last_name age job_title city state)"
| "main_run st ClearClick = (if people_data st \<noteq> [] then Some (click_clear st) else None)"
| "main_run st Other = Some st"

inductive reachable :: "session_state \<Rightarrow> bool" where
  reachable_init: "reachable init_state"
| reachable_run: "reachable st \<Longrightarrow> main_run st ev = Some st' \<Longrightarrow> reachable st'"

section \<open>The specification's notions\<close>

text \<open>The error taxonomy of the validator, and the validator as the specification words it.\<close>

datatype ValidationError = MissingField | InvalidAge

definition validate_spec ::
  "pystr \<Rightarrow> pystr \<Rightarrow> int \<Rightarrow> pystr \<Rightarrow> pystr \<Rightarrow> pystr \<Rightarrow> ValidationError + unit" where
  "validate_spec firstName lastName age jobTitle city state =
     (if strip firstName = [] \<or> strip lastName = [] \<or> strip jobTitle = [] \<or> strip city = []
         \<or> strip state = []
      then Inl MissingField
      else if age < 1 \<or> 120 < age then Inl InvalidAge
      else Inr ())"

text \<open>
  What a result of \<open>validate_input\<close> is in the taxonomy: the two messages are the two
  kinds of error.
\<close>

definition verdict :: "bool \<times> pystr \<Rightarrow> (ValidationError + unit) option" where
  "verdict r =
     (if fst r then Some (Inr ())
      else if snd r = ascii ''Please fill in all fields!'' then Some (Inl MissingField)
      else if snd r = ascii ''Please enter a valid age (1-120)!'' then Some (Inl InvalidAge)
      else None)"

text \<open>A validated record, and the invariant of the store.\<close>

definition valid_record :: "person \<Rightarrow> bool" where
  "valid_record p =
     (strip (First_Name p) \<noteq> [] \<and> strip (Last_Name p) \<noteq> [] \<and> strip (Job_Title p) \<noteq> []
      \<and> strip (City p) \<noteq> [] \<and> strip (State p) \<noteq> [] \<and> 1 \<le> Age p \<and> Age p \<le> 120)"

definition store_inv :: "session_state \<Rightarrow> bool" where
  "store_inv st = list_all valid_record (people_data st)"

text \<open>A string with no whitespace at either end, and a record of such strings.\<close>

definition trimmed :: "pystr \<Rightarrow> bool" where
  "trimmed s = (s = [] \<or> (\<not> isspace (hd s) \<and> \<not> isspace (last s)))"




text \<open>
  The two-step clear flow. \<open>clear_phase\<close> reads the phase off the session state;
  \<open>phase_spec\<close> is the flow of the specification, where every action but a click on the
  clear button leads to \<open>Idle\<close>; \<open>phase_code\<close> is the flow with the flag left as it is by
  every other action.
\<close>

datatype phase = Idle | ArmedForClear

definition clear_phase :: "session_state \<Rightarrow> phase" where
  "clear_phase st = (if (case confirm_clear st of None \<Rightarrow> False | Some b \<Rightarrow> b)
                     then ArmedForClear else Idle)"

fun phase_spec :: "phase \<Rightarrow> event \<Rightarrow> phase" where
  "phase_spec Idle ClearClick = ArmedForClear"
| "phase_spec ArmedForClear ClearClick = Idle"
| "phase_spec ph ev = Idle"

fun phase_code :: "phase \<Rightarrow> event \<Rightarrow> phase" where
  "phase_code Idle ClearClick = ArmedForClear"
| "phase_code ArmedForClear ClearClick = Idle"
| "phase_code ph ev = ph"

text \<open>
  The statistics of the specification. The average, a decimal with one digit after the
  point, is given by its number of tenths; the rounding is one of the two the
  specification allows, applied to the exact mean.
\<close>

datatype rounding = HalfEven | HalfUp

definition round_tenths :: "rounding \<Rightarrow> rat \<Rightarrow> int" where
  "round_tenths r q = (case r of HalfEven \<Rightarrow> rne (10 * q) | HalfUp \<Rightarrow> \<lfloor>10 * q + 1 / 2\<rfloor>)"

definition mean_age :: "person list \<Rightarrow> rat" where
  "mean_age store = of_int (sum_list (map Age store)) / of_int (int (length store))"

definition computeStatistics_spec :: "rounding \<Rightarrow> person list \<Rightarrow> int \<times> int \<times> int" where
  "computeStatistics_spec r store =
     (if store = [] then (0, 0, 0)
      else (int (length store), round_tenths r (mean_age store),
            int (card (State ` set store))))"

text \<open>
  A number of Python denotes the decimal of \<open>t\<close> tenths: the integer equal to it, or the
  float nearest to it (the float that prints as that decimal).
\<close>

fun denotes :: "pynum \<Rightarrow> int \<Rightarrow> bool" where
  "denotes (PyInt i) t = (10 * i = t)"
| "denotes (PyFloat x) t = (x = round_double t 10)"

definition agrees :: "py_error + (int \<times> pynum \<times> int) \<Rightarrow> int \<times> int \<times> int \<Rightarrow> bool" where
  "agrees res ref =
     (case res of Inl err \<Rightarrow> False
      | Inr (n, a, d) \<Rightarrow> n = fst ref \<and> denotes a (fst (snd ref)) \<and> d = snd (snd ref))"

text \<open>The mean is halfway between two decimals with one digit after the point.\<close>

definition is_tie :: "rat \<Rightarrow> bool" where
  "is_tie q = (10 * q - of_int \<lfloor>10 * q\<rfloor> = 1 / 2)"

section \<open>Example data\<close>

definition ada :: person where
  "ada = \<lparr>First_Name = ascii ''Ada'', Last_Name = ascii ''Lovelace'', Age = 36,
          Job_Title = ascii ''Mathematician'', City = ascii ''London'',
          State = ascii ''England''\<rparr>"

definition store_of :: "person list \<Rightarrow> session_state" where
  "store_of ps = init_state\<lparr>people_data := ps\<rparr>"

definition aged :: "int \<Rightarrow> pystr \<Rightarrow> person" where
  "aged a s = ada\<lparr>Age := a, State := s\<rparr>"

text \<open>Twenty records whose mean age is 30.15.\<close>

definition tie_example :: "person list" where
  "tie_example = replicate 19 (aged 30 (ascii ''NY'')) @ [aged 33 (ascii ''NY'')]"

section \<open>Properties\<close>

subsection \<open>Trimming\<close>

lemma strip_shape:
  assumes "strip s \<noteq> []"
  shows "\<not> isspace (hd (strip s))" and "\<not> isspace (last (strip s))"
proof -
  define a where "a = dropWhile isspace s"
  define b where "b = dropWhile isspace (rev a)"
  have s: "strip s = rev b" by (simp add: strip_def a_def b_def)
  with assms have b: "b \<noteq> []" by simp
  then have ra: "a \<noteq> []" by (auto simp: b_def)
  have "\<not> isspace (hd b)" using b unfolding b_def by (rule hd_dropWhile)
  then show "\<not> isspace (last (strip s))" using b by (simp add: s last_rev)
  have "last b = last (rev a)" using b unfolding b_def
    by (metis takeWhile_dropWhile_id last_appendR)
  also have "\<dots> = hd a" using ra by (simp add: last_rev)
  finally have "\<not> isspace (last b)" using ra unfolding a_def
    by (simp add: hd_dropWhile)
  then show "\<not> isspace (hd (strip s))" using b by (simp add: s hd_rev)
qed

lemma strip_fixed:
  assumes "trimmed s"
  shows "strip s = s"
proof (cases "s = []")
  case True then show ?thesis by (simp add: strip_def)
next
  case False
  with assms have h: "\<not> isspace (hd s)" and l: "\<not> isspace (last s)"
    by (auto simp: trimmed_def)
  from h False have 1: "dropWhile isspace s = s" by (cases s) auto
  from l False have "\<not> isspace (hd (rev s))" by (simp add: hd_rev)
  with False have 2: "dropWhile isspace (rev s) = rev s" by (cases "rev s") auto
  show ?thesis by (simp add: strip_def 1 2)
qed

lemma trimmed_strip: "trimmed (strip s)"
  using strip_shape [of s] by (auto simp: trimmed_def)

lemma strip_idem: "strip (strip s) = strip s"
  by (rule strip_fixed) (rule trimmed_strip)

subsection \<open>Validation and the submit handler\<close>

lemma messages_differ:
  "ascii ''Please fill in all fields!'' \<noteq> ascii ''Please enter a valid age (1-120)!''"
  by (simp add: ascii_def)

text \<open>
  Claim C3. \<open>validate_input\<close> classifies every input as the error taxonomy says: the
  result is \<open>MissingField\<close> whenever one of the five text fields is empty after trimming,
  whatever the age; \<open>InvalidAge\<close> when all five are non-empty after trimming and the age
  is outside 1..120; success in every other case.
\<close>

theorem validate_input_taxonomy:
  "verdict (validate_input firstName lastName age jobTitle city state)
     = Some (validate_spec firstName lastName age jobTitle city state)"
  using messages_differ
  by (simp add: verdict_def validate_input_def validate_spec_def truthy_def)

lemma validate_accepts:
  assumes "strip first_name \<noteq> []" "strip last_name \<noteq> []" "strip job_title \<noteq> []"
    "strip city \<noteq> []" "strip state \<noteq> []" "1 \<le> age" "age \<le> 120"
  shows "validate_input first_name last_name age job_title city state = (True, [])"
  using assms by (simp add: validate_input_def truthy_def)

lemma validate_rejects:
  assumes "strip first_name = [] \<or> strip last_name = [] \<or> strip job_title = []
    \<or> strip city = [] \<or> strip state = [] \<or> age < 1 \<or> 120 < age"
  shows "\<not> fst (validate_input first_name last_name age job_title city state)"
    and "snd (validate_input first_name last_name age job_title city state) \<noteq> []"
  using assms by (auto simp: validate_input_def truthy_def ascii_def)

lemma people_add_person:
  "people_data (fst (add_person st first_name last_name age job_title city state))
     = people_data st @ [\<lparr>First_Name = strip first_name, Last_Name = strip last_name,
         Age = age, Job_Title = strip job_title, City = strip city, State = strip state\<rparr>]"
  by (simp add: add_person_def Let_def)

lemma ada_fields:
  "strip (ascii ''  Ada '') = ascii ''Ada''" "strip (ascii ''Ada'') = ascii ''Ada''"
  "strip (ascii ''Lovelace'') = ascii ''Lovelace''"
  "strip (ascii ''Mathematician'') = ascii ''Mathematician''"
  "strip (ascii ''London'') = ascii ''London''"
  "strip (ascii ''England'') = ascii ''England''"
  "strip (ascii ''   '') = []"
  by (simp_all add: ascii_def strip_def isspace_def)

lemma submit_form_cases:
  "submit_form st first_name last_name age job_title city state =
     (if fst (validate_input first_name last_name age job_title city state)
      then fst (add_person (clear_messages st) first_name last_name age job_title city state)
      else (clear_messages st)\<lparr>error_message :=
             snd (validate_input first_name last_name age job_title city state)\<rparr>)"
  by (simp add: submit_form_def Let_def split: prod.splits)

text \<open>
  Claim C8. For every input whose five text fields are non-empty after trimming and whose
  age is in 1..120, \<open>validate_input\<close> succeeds, and \<open>add_person\<close> succeeds and makes the
  store one record longer, the new record (with trimmed fields) at its end; so does the
  submit handler.
\<close>

theorem valid_input_is_appended:
  assumes "strip first_name \<noteq> []" "strip last_name \<noteq> []" "strip job_title \<noteq> []"
    "strip city \<noteq> []" "strip state \<noteq> []" "1 \<le> age" "age \<le> 120"
  shows "fst (validate_input first_name last_name age job_title city state)
    \<and> snd (add_person st first_name last_name age job_title city state)
    \<and> length (people_data (fst (add_person st first_name last_name age job_title city state)))
        = length (people_data st) + 1
    \<and> people_data (fst (add_person st first_name last_name age job_title city state))
        = people_data st @ [\<lparr>First_Name = strip first_name, Last_Name = strip last_name,
            Age = age, Job_Title = strip job_title, City = strip city, State = strip state\<rparr>]
    \<and> people_data (submit_form st first_name last_name age job_title city state)
        = people_data st @ [\<lparr>First_Name = strip first_name, Last_Name = strip last_name,
            Age = age, Job_Title = strip job_title, City = strip city, State = strip state\<rparr>]"
  using validate_accepts [OF assms]
  by (simp add: people_add_person submit_form_cases clear_messages_def add_person_def)

text \<open>The theorem at Ada Lovelace, entered with blanks around the first name.\<close>

theorem valid_input_is_appended_witness:
  "people_data (submit_form (store_of [ada]) (ascii ''  Ada '') (ascii ''Lovelace'') 36
      (ascii ''Mathematician'') (ascii ''London'') (ascii ''England'')) = [ada, ada]
   \<and> length (people_data (fst (add_person (store_of [ada]) (ascii ''  Ada '') (ascii ''Lovelace'') 36
      (ascii ''Mathematician'') (ascii ''London'') (ascii ''England'')))) = 2"
  using valid_input_is_appended [of "ascii ''  Ada ''" "ascii ''Lovelace''"
      "ascii ''Mathematician''" "ascii ''London''" "ascii ''England''" 36 "store_of [ada]"]
  by (simp add: ada_fields store_of_def init_state_def ada_def) (simp add: ascii_def)

text \<open>
  Claim C4. For every input that the validator rejects (a text field empty after trimming,
  or an age outside 1..120), the submit handler leaves the records of the store exactly
  as they were and produces only an error message: the success message is empty and the
  error message is the validator's, which is not empty.
\<close>

theorem rejected_submit_leaves_store:
  assumes "strip first_name = [] \<or> strip last_name = [] \<or> strip job_title = []
    \<or> strip city = [] \<or> strip state = [] \<or> age < 1 \<or> 120 < age"
  shows "people_data (submit_form st first_name last_name age job_title city state)
           = people_data st
    \<and> success_message (submit_form st first_name last_name age job_title city state) = []
    \<and> error_message (submit_form st first_name last_name age job_title city state)
           = snd (validate_input first_name last_name age job_title city state)
    \<and> error_message (submit_form st first_name last_name age job_title city state) \<noteq> []
    \<and> confirm_clear (submit_form st first_name last_name age job_title city state)
           = confirm_clear st
    \<and> main_run st (Submit first_name last_name age job_title city state)
           = Some (clear_messages st\<lparr>error_message :=
                snd (validate_input first_name last_name age job_title city state)\<rparr>)"
  using validate_rejects [OF assms]
  by (simp add: submit_form_cases clear_messages_def)

text \<open>The theorem at a blank first name, and at the age 121.\<close>

theorem rejected_submit_leaves_store_witness:
  "people_data (submit_form (store_of [ada]) (ascii ''   '') (ascii ''Lovelace'') 0
      (ascii ''Mathematician'') (ascii ''London'') (ascii ''England'')) = [ada]
   \<and> error_message (submit_form (store_of [ada]) (ascii ''   '') (ascii ''Lovelace'') 0
      (ascii ''Mathematician'') (ascii ''London'') (ascii ''England''))
       = ascii ''Please fill in all fields!''
   \<and> people_data (submit_form (store_of [ada]) (ascii ''Ada'') (ascii ''Lovelace'') 121
      (ascii ''Mathematician'') (ascii ''London'') (ascii ''England'')) = [ada]
   \<and> error_message (submit_form (store_of [ada]) (ascii ''Ada'') (ascii ''Lovelace'') 121
      (ascii ''Mathematician'') (ascii ''London'') (ascii ''England''))
       = ascii ''Please enter a valid age (1-120)!''"
  using rejected_submit_leaves_store [of "ascii ''   ''" "ascii ''Lovelace''"
      "ascii ''Mathematician''" "ascii ''London''" "ascii ''England''" 0 "store_of [ada]"]
    rejected_submit_leaves_store [of "ascii ''Ada''" "ascii ''Lovelace''"
      "ascii ''Mathematician''" "ascii ''London''" "ascii ''England''" 121 "store_of [ada]"]
  by (simp add: ada_fields store_of_def init_state_def validate_input_def truthy_def
      clear_messages_def) (simp add: ascii_def)

subsection \<open>The store invariant\<close>

lemma validate_accepted_iff:
  "fst (validate_input first_name last_name age job_title city state) \<longleftrightarrow>
     strip first_name \<noteq> [] \<and> strip last_name \<noteq> [] \<and> strip job_title \<noteq> []
     \<and> strip city \<noteq> [] \<and> strip state \<noteq> [] \<and> 1 \<le> age \<and> age \<le> 120"
  by (auto simp: validate_input_def truthy_def)

lemma store_inv_init: "store_inv init_state"
  by (simp add: store_inv_def init_state_def)

lemma store_inv_submit:
  assumes "store_inv st"
  shows "store_inv (submit_form st first_name last_name age job_title city state)"
proof (cases "fst (validate_input first_name last_name age job_title city state)")
  case True
  then have "valid_record \<lparr>First_Name = strip first_name, Last_Name = strip last_name,
      Age = age, Job_Title = strip job_title, City = strip city, State = strip state\<rparr>"
    by (simp add: validate_accepted_iff valid_record_def strip_idem)
  with assms True show ?thesis
    by (simp add: submit_form_cases store_inv_def people_add_person clear_messages_def)
next
  case False
  with assms show ?thesis
    by (simp add: submit_form_cases store_inv_def clear_messages_def)
qed

lemma store_inv_clear: "store_inv st \<Longrightarrow> store_inv (click_clear st)"
  by (simp add: store_inv_def click_clear_def)

lemma store_inv_run:
  assumes "store_inv st" "main_run st ev = Some st'"
  shows "store_inv st'"
  using assms by (cases ev) (auto simp: store_inv_submit store_inv_clear split: if_splits)

lemma reachable_store_inv: "reachable st \<Longrightarrow> store_inv st"
  by (induction rule: reachable.induct) (auto simp: store_inv_init intro: store_inv_run)

text \<open>
  Claim C5. The store invariant: the initial store satisfies it, every run of \<open>main\<close> (a
  submit with its validation, a click on the clear button, any other interaction)
  preserves it, and so in every reachable state every stored record has its five string
  fields non-empty after trimming and its age in 1..120.
\<close>

theorem store_invariant:
  "store_inv init_state
   \<and> (store_inv st \<longrightarrow> main_run st ev = Some st' \<longrightarrow> store_inv st')
   \<and> (reachable st \<longrightarrow> list_all valid_record (people_data st))"
  using store_inv_init store_inv_run [of st ev st'] reachable_store_inv [of st]
  by (auto simp: store_inv_def)

text \<open>The theorem at the state after Ada Lovelace is submitted, and at a clear click.\<close>

theorem store_invariant_witness:
  "reachable (submit_form init_state (ascii ''  Ada '') (ascii ''Lovelace'') 36
      (ascii ''Mathematician'') (ascii ''London'') (ascii ''England''))
   \<and> people_data (submit_form init_state (ascii ''  Ada '') (ascii ''Lovelace'') 36
      (ascii ''Mathematician'') (ascii ''London'') (ascii ''England'')) = [ada]
   \<and> list_all valid_record [ada]
   \<and> store_inv (store_of [ada])
   \<and> main_run (store_of [ada]) ClearClick = Some (click_clear (store_of [ada]))
   \<and> store_inv (click_clear (store_of [ada]))"
proof -
  let ?s = "submit_form init_state (ascii ''  Ada '') (ascii ''Lovelace'') 36
      (ascii ''Mathematician'') (ascii ''London'') (ascii ''England'')"
  have r: "reachable ?s"
    by (rule reachable_run [OF reachable_init, of "Submit (ascii ''  Ada '') (ascii ''Lovelace'') 36
      (ascii ''Mathematician'') (ascii ''London'') (ascii ''England'')"]) simp
  have p: "people_data ?s = [ada]"
    by (simp add: submit_form_cases validate_accepted_iff ada_fields people_add_person
        clear_messages_def init_state_def ada_def) (simp add: ascii_def)
  have m: "main_run (store_of [ada]) ClearClick = Some (click_clear (store_of [ada]))"
    by (simp add: store_of_def)
  have v: "store_inv (store_of [ada])"
    using store_invariant [of ?s "Other" ?s] r p by (simp add: store_inv_def store_of_def)
  from store_invariant [of "store_of [ada]" ClearClick "click_clear (store_of [ada])"] r p m v
    store_invariant [of ?s "Other" ?s]
  show ?thesis by simp
qed

subsection \<open>Stored records are trimmed\<close>






subsection \<open>Exporters\<close>












subsection \<open>The clear flow\<close>

lemma confirm_clear_submit:
  "confirm_clear (submit_form st first_name last_name age job_title city state)
     = confirm_clear st"
  by (simp add: submit_form_cases clear_messages_def add_person_def)

text \<open>
  Claim C9, as amended. The two-step clear flow is the machine \<open>phase_code\<close>: a click on
  the clear button in \<open>Idle\<close> arms the flag and leaves the store as it is, a click in
  \<open>ArmedForClear\<close> empties the store and returns the flag to \<open>Idle\<close>; a submit of the
  form and every other interaction leave the flag as it is, so an armed flag stays armed.
\<close>

theorem clear_flow_of_the_code:
  assumes "main_run st ev = Some st'"
  shows "clear_phase st' = phase_code (clear_phase st) ev
    \<and> (ev = ClearClick \<and> clear_phase st = Idle \<longrightarrow> people_data st' = people_data st)
    \<and> (ev = ClearClick \<and> clear_phase st = ArmedForClear \<longrightarrow>
         people_data st' = [] \<and> confirm_clear st' = Some False)
    \<and> (ev \<noteq> ClearClick \<longrightarrow> confirm_clear st' = confirm_clear st)"
proof (cases ev)
  case (Submit first_name last_name age job_title city state)
  with assms have "st' = submit_form st first_name last_name age job_title city state"
    by simp
  then have "confirm_clear st' = confirm_clear st" by (simp add: confirm_clear_submit)
  with Submit show ?thesis by (cases "clear_phase st") (simp_all add: clear_phase_def)
next
  case ClearClick
  with assms have "st' = click_clear st" by (simp split: if_splits)
  with ClearClick show ?thesis
    by (cases "clear_phase st")
      (auto simp: clear_phase_def click_clear_def split: option.splits if_splits)
next
  case Other
  with assms show ?thesis by (cases "clear_phase st") (auto simp: clear_phase_def)
qed

text \<open>The theorem along arm, confirm, and along arm, other interaction.\<close>

theorem clear_flow_of_the_code_witness:
  "main_run (store_of [ada]) ClearClick = Some (click_clear (store_of [ada]))
   \<and> clear_phase (store_of [ada]) = Idle
   \<and> clear_phase (click_clear (store_of [ada])) = ArmedForClear
   \<and> people_data (click_clear (store_of [ada])) = [ada]
   \<and> main_run (click_clear (store_of [ada])) ClearClick
        = Some (click_clear (click_clear (store_of [ada])))
   \<and> clear_phase (click_clear (click_clear (store_of [ada]))) = Idle
   \<and> people_data (click_clear (click_clear (store_of [ada]))) = []
   \<and> main_run (click_clear (store_of [ada])) Other = Some (click_clear (store_of [ada]))
   \<and> confirm_clear (click_clear (store_of [ada])) = Some True"
proof -
  let ?s0 = "store_of [ada]"
  let ?s1 = "click_clear ?s0"
  let ?s2 = "click_clear ?s1"
  have m0: "main_run ?s0 ClearClick = Some ?s1" by (simp add: store_of_def)
  have i0: "clear_phase ?s0 = Idle" by (simp add: clear_phase_def store_of_def init_state_def)
  from clear_flow_of_the_code [OF m0] i0
  have a1: "clear_phase ?s1 = ArmedForClear" and p1: "people_data ?s1 = [ada]"
    by (simp_all add: store_of_def)
  from p1 have m1: "main_run ?s1 ClearClick = Some ?s2" by simp
  from clear_flow_of_the_code [OF m1] a1
  have i2: "clear_phase ?s2 = Idle" and p2: "people_data ?s2 = []" by simp_all
  have m3: "main_run ?s1 Other = Some ?s1" by simp
  have c1: "confirm_clear ?s1 = Some True"
    using a1 by (simp add: clear_phase_def click_clear_def store_of_def init_state_def)
  from clear_flow_of_the_code [OF m3] c1 m0 i0 a1 p1 m1 i2 p2 m3 show ?thesis by simp
qed

text \<open>
  Claim C9 as stated fails: after the first click, a valid submit leaves the flag armed,
  where the flow of the specification is back in \<open>Idle\<close>; the next single click then
  empties the store, the new record included. Another interaction leaves it armed too.
\<close>

theorem armed_flag_survives_submit:
  "clear_phase (click_clear (store_of [ada])) = ArmedForClear
   \<and> main_run (click_clear (store_of [ada]))
        (Submit (ascii ''Ada'') (ascii ''Lovelace'') 36 (ascii ''Mathematician'')
           (ascii ''London'') (ascii ''England''))
      = Some (submit_form (click_clear (store_of [ada])) (ascii ''Ada'') (ascii ''Lovelace'') 36
           (ascii ''Mathematician'') (ascii ''London'') (ascii ''England''))
   \<and> clear_phase (submit_form (click_clear (store_of [ada])) (ascii ''Ada'') (ascii ''Lovelace'') 36
           (ascii ''Mathematician'') (ascii ''London'') (ascii ''England''))
      \<noteq> phase_spec (clear_phase (click_clear (store_of [ada])))
           (Submit (ascii ''Ada'') (ascii ''Lovelace'') 36 (ascii ''Mathematician'')
              (ascii ''London'') (ascii ''England''))
   \<and> people_data (submit_form (click_clear (store_of [ada])) (ascii ''Ada'') (ascii ''Lovelace'') 36
           (ascii ''Mathematician'') (ascii ''London'') (ascii ''England'')) = [ada, ada]
   \<and> people_data (click_clear (submit_form (click_clear (store_of [ada])) (ascii ''Ada'')
           (ascii ''Lovelace'') 36 (ascii ''Mathematician'') (ascii ''London'')
           (ascii ''England''))) = []
   \<and> clear_phase (click_clear (store_of [ada]))
      \<noteq> phase_spec (clear_phase (click_clear (store_of [ada]))) Other"
proof -
  let ?s1 = "click_clear (store_of [ada])"
  let ?s2 = "submit_form ?s1 (ascii ''Ada'') (ascii ''Lovelace'') 36 (ascii ''Mathematician'')
           (ascii ''London'') (ascii ''England'')"
  have a1: "clear_phase ?s1 = ArmedForClear"
    by (simp add: clear_phase_def click_clear_def store_of_def init_state_def)
  have c2: "confirm_clear ?s2 = Some True"
    by (simp add: confirm_clear_submit click_clear_def store_of_def init_state_def)
  then have a2: "clear_phase ?s2 = ArmedForClear" by (simp add: clear_phase_def)
  have p2: "people_data ?s2 = [ada, ada]"
    by (simp add: submit_form_cases validate_accepted_iff ada_fields people_add_person
        clear_messages_def click_clear_def store_of_def init_state_def ada_def)
      (simp add: ascii_def)
  have p3: "people_data (click_clear ?s2) = []"
    using c2 by (simp add: click_clear_def)
  from a1 a2 p2 p3 show ?thesis by simp
qed

subsection \<open>Statistics\<close>

lemma rne_bounds: "\<bar>of_int (rne x) - x\<bar> \<le> 1 / 2"
proof -
  have "of_int \<lfloor>x\<rfloor> \<le> x" "x < of_int \<lfloor>x\<rfloor> + 1" by linarith+
  then show ?thesis by (auto simp: rne_def Let_def)
qed

lemma rne_unique:
  assumes "\<bar>x - of_int f\<bar> < 1 / 2"
  shows "rne x = f"
proof (cases "of_int f \<le> x")
  case True
  with assms have "\<lfloor>x\<rfloor> = f" by (intro floor_unique) auto
  with assms True show ?thesis by (auto simp: rne_def Let_def)
next
  case False
  with assms have fl: "\<lfloor>x\<rfloor> = f - 1" by (intro floor_unique) auto
  with assms False show ?thesis by (auto simp: rne_def Let_def)
qed

lemma rne_not_tie:
  assumes "x - of_int \<lfloor>x\<rfloor> \<noteq> 1 / 2"
  shows "\<bar>x - of_int (rne x)\<bar> < 1 / 2"
proof -
  have "of_int \<lfloor>x\<rfloor> \<le> x" "x < of_int \<lfloor>x\<rfloor> + 1" by linarith+
  with assms show ?thesis by (auto simp: rne_def Let_def)
qed

lemma half_up_not_tie:
  assumes "x - of_int \<lfloor>x\<rfloor> \<noteq> 1 / 2"
  shows "\<lfloor>x + 1 / 2\<rfloor> = rne x"
proof -
  from rne_not_tie [OF assms] have "\<bar>x - of_int (rne x)\<bar> < 1 / 2" .
  then have "of_int (rne x) \<le> x + 1 / 2" "x + 1 / 2 < of_int (rne x) + 1" by linarith+
  then show ?thesis by (rule floor_unique)
qed

lemma ilog2_le:
  assumes "0 < a" "0 < b"
  shows "of_int b * 2 powi (ilog2 a b) \<le> (of_int a :: rat)"
proof (cases "of_int b * 2 powi (bitlen a - bitlen b) \<le> (of_int a :: rat)")
  case True
  then show ?thesis by (simp add: ilog2_def Let_def)
next
  case False
  from bitlen_bounds [OF assms(1)] have la: "2 ^ nat (bitlen a - 1) \<le> a" by simp
  from bitlen_bounds [OF assms(2)] have ub: "b < 2 ^ nat (bitlen b)" by simp
  have ba: "1 \<le> bitlen a" using assms(1) by (simp add: bitlen_alt_def)
  have bb: "0 \<le> bitlen b" by (rule bitlen_nonneg)
  have "(of_int b :: rat) * 2 powi (bitlen a - bitlen b - 1)
      \<le> 2 powi (bitlen b) * 2 powi (bitlen a - bitlen b - 1)"
  proof (rule mult_right_mono)
    have "(of_int b :: rat) \<le> of_int (2 ^ nat (bitlen b))" using ub by (simp only: of_int_le_iff)
    then show "(of_int b :: rat) \<le> 2 powi bitlen b" using bb by (simp add: power_int_def)
    show "(0::rat) \<le> 2 powi (bitlen a - bitlen b - 1)" by simp
  qed
  also have "\<dots> = 2 powi (bitlen a - 1)"
    by (simp flip: power_int_add)
  also have "\<dots> = of_int (2 ^ nat (bitlen a - 1))" using ba by (simp add: power_int_def)
  also have "\<dots> \<le> of_int a" using la by (simp only: of_int_le_iff)
  finally show ?thesis using False by (simp add: ilog2_def Let_def)
qed

lemma round_double_error:
  assumes "a \<noteq> 0" "0 < b"
  shows "\<bar>round_double a b - of_int a / of_int b\<bar>
          \<le> 2 powi (max (ilog2 \<bar>a\<bar> b - 52) (- 1074)) / 2"
proof -
  define e where "e = max (ilog2 \<bar>a\<bar> b - 52) (- 1074)"
  define q :: rat where "q = of_int a / of_int b"
  define p :: rat where "p = 2 powi e"
  have p: "0 < p" by (simp add: p_def)
  have rd: "round_double a b = of_int (rne (q / p)) * p"
    using assms by (simp add: round_double_def e_def q_def p_def Let_def)
  have "round_double a b - q = (of_int (rne (q / p)) - q / p) * p"
    using p by (simp add: rd field_simps)
  then have "\<bar>round_double a b - q\<bar> = \<bar>of_int (rne (q / p)) - q / p\<bar> * p"
    using p by (simp add: abs_mult)
  also have "\<dots> \<le> 1 / 2 * p"
    using rne_bounds [of "q / p"] p by (intro mult_right_mono) auto
  finally show ?thesis by (simp add: q_def p_def e_def)
qed

lemma ilog2_upper:
  assumes "0 < b" "b \<le> a" "a \<le> 120 * b"
  shows "ilog2 a b \<le> 6"
proof (rule ccontr)
  assume "\<not> ilog2 a b \<le> 6"
  then have k: "7 \<le> ilog2 a b" by simp
  have "(2::rat) powi 7 \<le> 2 powi (ilog2 a b)"
    using k by (intro power_int_increasing) auto
  then have "(128::rat) \<le> 2 powi (ilog2 a b)" by simp
  then have "of_int b * (128::rat) \<le> of_int b * 2 powi (ilog2 a b)"
    using assms(1) by (intro mult_left_mono) auto
  also have "\<dots> \<le> of_int a" using assms by (intro ilog2_le) auto
  also have "\<dots> \<le> of_int (120 * b)" using assms(3) by (simp only: of_int_le_iff)
  finally have "(of_int b :: rat) * 128 \<le> of_int b * 120" by simp
  then show False using assms(1) by simp
qed

lemma mean_error:
  assumes "0 < b" "b \<le> a" "a \<le> 120 * b"
  shows "\<bar>round_double a b - of_int a / of_int b\<bar> \<le> 1 / 2 ^ 47"
proof -
  have a: "a \<noteq> 0" "\<bar>a\<bar> = a" using assms by auto
  have "max (ilog2 a b - 52) (- 1074) \<le> - 46" using ilog2_upper [OF assms] by simp
  then have "(2::rat) powi (max (ilog2 a b - 52) (- 1074)) \<le> 2 powi (- 46)"
    by (intro power_int_increasing) auto
  then have "(2::rat) powi (max (ilog2 a b - 52) (- 1074)) / 2 \<le> 2 powi (- 46) / 2" by simp
  also have "\<dots> = 1 / 2 ^ 47" by (simp add: power_int_minus field_simps)
  finally show ?thesis using round_double_error [OF a(1) assms(1)] by (simp add: a(2))
qed

lemma age_sum_bounds:
  assumes "list_all (\<lambda>p. 1 \<le> Age p \<and> Age p \<le> 120) ps"
  shows "int (length ps) \<le> sum_list (map Age ps) \<and> sum_list (map Age ps) \<le> 120 * int (length ps)"
  using assms by (induction ps) auto

lemma round_mean_not_tie:
  assumes n: "0 < n" "n \<le> 2 ^ 40" and s: "n \<le> s" "s \<le> 120 * n"
    and nt: "\<not> is_tie (of_int s / of_int n)"
  shows "rne (10 * round_double s n) = rne (10 * (of_int s / of_int n))"
proof -
  define y :: rat where "y = 10 * (of_int s / of_int n)"
  define f where "f = rne y"
  define m where "m = 20 * s - 2 * n * f"
  have npos: "(0::rat) < of_int n" using n by simp
  from nt have "\<bar>y - of_int f\<bar> < 1 / 2"
    unfolding f_def y_def is_tie_def by (intro rne_not_tie) simp
  moreover have my: "of_int m = 2 * of_int n * (y - of_int f)"
    using npos by (simp add: m_def y_def field_simps)
  ultimately have "\<bar>(of_int m :: rat)\<bar> < of_int n"
    using npos by (simp add: abs_mult)
  then have "\<bar>m\<bar> < n" by (metis of_int_abs of_int_less_iff)
  then have "\<bar>m\<bar> \<le> n - 1" by simp
  then have "\<bar>(of_int m :: rat)\<bar> \<le> of_int n - 1"
    by (metis of_int_abs of_int_1 of_int_diff of_int_le_iff)
  then have "2 * of_int n * \<bar>y - of_int f\<bar> \<le> of_int n - 1"
    using npos by (simp add: my abs_mult)
  then have yf: "\<bar>y - of_int f\<bar> \<le> 1 / 2 - 1 / (2 * of_int n)"
    using npos by (simp add: field_simps)
  have "(of_int n :: rat) \<le> of_int (2 ^ 40)" using n(2) by (simp only: of_int_le_iff)
  then have nb: "(of_int n :: rat) \<le> 2 ^ 40" by simp
  have "1 / (2 ^ 41 :: rat) \<le> 1 / (2 * of_int n)"
    using npos nb by (intro divide_left_mono) auto
  then have gap: "10 / (2 ^ 47 :: rat) < 1 / (2 * of_int n)" by simp
  have "10 * round_double s n - y = 10 * (round_double s n - of_int s / of_int n)"
    by (simp add: y_def)
  then have "\<bar>10 * round_double s n - y\<bar> = 10 * \<bar>round_double s n - of_int s / of_int n\<bar>"
    by (simp only: abs_mult)
  also have "\<dots> \<le> 10 * (1 / 2 ^ 47)"
    using mean_error [OF n(1) s] by (intro mult_left_mono) auto
  finally have "\<bar>10 * round_double s n - y\<bar> \<le> 10 / 2 ^ 47" by simp
  with yf gap have "\<bar>10 * round_double s n - of_int f\<bar> < 1 / 2" by linarith
  then have "rne (10 * round_double s n) = f" by (rule rne_unique)
  then show ?thesis by (simp add: f_def y_def)
qed

lemma truediv_mean:
  assumes "0 < n" "n \<le> s" "s \<le> 120 * n"
  shows "truediv s n = Inr (round_double s n)"
proof -
  have "\<bar>round_double s n - of_int s / of_int n\<bar> \<le> 1 / 2 ^ 47"
    using assms by (rule mean_error)
  moreover have "(of_int s :: rat) / of_int n \<le> 120"
  proof -
    have "(of_int s :: rat) \<le> of_int (120 * n)" using assms(3) by (simp only: of_int_le_iff)
    then show ?thesis using assms(1) by (simp add: field_simps)
  qed
  moreover have "(0::rat) \<le> of_int s / of_int n" using assms by simp
  moreover have "(1::rat) / 2 ^ 47 \<le> 1" by simp
  ultimately have "\<bar>round_double s n\<bar> \<le> 121" by linarith
  moreover have "(121::rat) < 2 ^ 1024" by simp
  ultimately have "\<not> 2 ^ 1024 \<le> \<bar>round_double s n\<bar>" by linarith
  then show ?thesis using assms(1) by (simp add: truediv_def Let_def)
qed

lemma get_statistics_valid:
  assumes "list_all (\<lambda>p. 1 \<le> Age p \<and> Age p \<le> 120) (people_data st)"
    and "people_data st \<noteq> []"
  shows "get_statistics st =
     Inr (int (length (people_data st)),
          PyFloat (round1 (round_double (sum_list (map Age (people_data st)))
                     (int (length (people_data st))))),
          int (card (State ` set (people_data st))))"
proof -
  have "0 < int (length (people_data st))" using assms(2) by simp
  from truediv_mean [OF this] age_sum_bounds [OF assms(1)]
  show ?thesis using assms(2) by (simp add: get_statistics_def Let_def)
qed

text \<open>
  Claim C1, as amended. On an empty store \<open>get_statistics\<close> returns \<open>(0, 0, 0)\<close>. On a
  non-empty store of records with ages in 1..120, of at most \<open>2^40\<close> records, it returns
  the number of records, the number of distinct state strings, and as average
  \<open>round(x, 1)\<close> of the float \<open>x\<close> nearest to the exact mean. That average is the exact mean
  rounded to one decimal, half to even and half up alike, whenever the exact mean is not
  halfway between two such decimals; and it is the exact mean rounded half to even when
  the mean is itself a float. Ages 30, 40 give 35.0; states NY, NY, CA give 2.
\<close>

theorem get_statistics_rounding:
  assumes "list_all (\<lambda>p. 1 \<le> Age p \<and> Age p \<le> 120) (people_data st)"
    and "length (people_data st) \<le> 2 ^ 40"
  shows "(people_data st = [] \<longrightarrow> get_statistics st = Inr (0, PyInt 0, 0))
    \<and> (people_data st \<noteq> [] \<longrightarrow> get_statistics st =
         Inr (int (length (people_data st)),
              PyFloat (round1 (round_double (sum_list (map Age (people_data st)))
                         (int (length (people_data st))))),
              int (card (State ` set (people_data st)))))
    \<and> (\<not> is_tie (mean_age (people_data st)) \<longrightarrow>
         agrees (get_statistics st) (computeStatistics_spec HalfEven (people_data st))
         \<and> agrees (get_statistics st) (computeStatistics_spec HalfUp (people_data st)))
    \<and> (round_double (sum_list (map Age (people_data st))) (int (length (people_data st)))
           = mean_age (people_data st) \<longrightarrow>
         agrees (get_statistics st) (computeStatistics_spec HalfEven (people_data st)))"
proof (cases "people_data st = []")
  case True
  then show ?thesis
    by (simp add: get_statistics_def computeStatistics_spec_def agrees_def)
next
  case False
  let ?ps = "people_data st"
  let ?s = "sum_list (map Age ?ps)"
  let ?n = "int (length ?ps)"
  note g = get_statistics_valid [OF assms(1) False]
  have n: "0 < ?n" using False by simp
  have nb: "?n \<le> 2 ^ 40" using assms(2) by (metis of_nat_le_iff of_nat_numeral of_nat_power)
  note sb = age_sum_bounds [OF assms(1)]
  have nt: "agrees (get_statistics st) (computeStatistics_spec HalfEven ?ps)
      \<and> agrees (get_statistics st) (computeStatistics_spec HalfUp ?ps)"
    if t: "\<not> is_tie (mean_age ?ps)"
  proof -
    from t have t': "\<not> is_tie (of_int ?s / of_int ?n)" by (simp add: mean_age_def)
    have r: "rne (10 * round_double ?s ?n) = rne (10 * mean_age ?ps)"
      using round_mean_not_tie [OF n nb _ _ t'] sb by (simp add: mean_age_def)
    from t have "10 * mean_age ?ps - of_int \<lfloor>10 * mean_age ?ps\<rfloor> \<noteq> 1 / 2"
      by (simp add: is_tie_def)
    then have u: "\<lfloor>10 * mean_age ?ps + 1 / 2\<rfloor> = rne (10 * mean_age ?ps)"
      by (rule half_up_not_tie)
    show ?thesis using False
      by (simp add: g computeStatistics_spec_def round_tenths_def round1_def r u agrees_def)
  qed
  have ex: "agrees (get_statistics st) (computeStatistics_spec HalfEven ?ps)"
    if e: "round_double ?s ?n = mean_age ?ps"
    using False
    by (simp add: g computeStatistics_spec_def round_tenths_def round1_def e agrees_def)
  from False g nt ex show ?thesis by blast
qed

lemma example_floats:
  "round1 (round_double 70 2) = 35" "round1 (round_double 120 3) = 40"
  by code_simp+

lemma example_states: "card {ascii ''NY'', ascii ''CA''} = 2"
  by (simp add: ascii_def)

text \<open>
  The theorem at the empty store, at ages 30, 40, at states NY, NY, CA, and at the mean
  30.25, which is halfway and is a float.
\<close>

theorem get_statistics_rounding_witness:
  "get_statistics (store_of []) = Inr (0, PyInt 0, 0)
   \<and> get_statistics (store_of [aged 30 (ascii ''NY''), aged 40 (ascii ''NY'')])
       = Inr (2, PyFloat 35, 1)
   \<and> get_statistics (store_of [aged 30 (ascii ''NY''), aged 40 (ascii ''NY''),
         aged 50 (ascii ''CA'')]) = Inr (3, PyFloat 40, 2)
   \<and> agrees (get_statistics (store_of [aged 30 (ascii ''NY''), aged 40 (ascii ''NY''),
         aged 50 (ascii ''CA'')])) (3, 400, 2)
   \<and> agrees (get_statistics (store_of [aged 30 (ascii ''NY''), aged 30 (ascii ''NY''),
         aged 30 (ascii ''NY''), aged 31 (ascii ''NY'')])) (4, 302, 1)"
proof -
  let ?a = "store_of []"
  let ?b = "store_of [aged 30 (ascii ''NY''), aged 40 (ascii ''NY'')]"
  let ?c = "store_of [aged 30 (ascii ''NY''), aged 40 (ascii ''NY''), aged 50 (ascii ''CA'')]"
  let ?d = "store_of [aged 30 (ascii ''NY''), aged 30 (ascii ''NY''),
         aged 30 (ascii ''NY''), aged 31 (ascii ''NY'')]"
  have ha: "list_all (\<lambda>p. 1 \<le> Age p \<and> Age p \<le> 120) (people_data ?a)"
      "length (people_data ?a) \<le> 2 ^ 40"
    by (simp_all add: store_of_def)
  have hb: "list_all (\<lambda>p. 1 \<le> Age p \<and> Age p \<le> 120) (people_data ?b)"
      "length (people_data ?b) \<le> 2 ^ 40"
    by (simp_all add: store_of_def aged_def)
  have hc: "list_all (\<lambda>p. 1 \<le> Age p \<and> Age p \<le> 120) (people_data ?c)"
      "length (people_data ?c) \<le> 2 ^ 40"
    by (simp_all add: store_of_def aged_def)
  have hd: "list_all (\<lambda>p. 1 \<le> Age p \<and> Age p \<le> 120) (people_data ?d)"
      "length (people_data ?d) \<le> 2 ^ 40"
    by (simp_all add: store_of_def aged_def)
  have "people_data ?a = []" by (simp add: store_of_def)
  with get_statistics_rounding [OF ha] have a: "get_statistics ?a = Inr (0, PyInt 0, 0)"
    by blast
  have "people_data ?b \<noteq> []" by (simp add: store_of_def)
  with get_statistics_rounding [OF hb] have "get_statistics ?b =
         Inr (int (length (people_data ?b)),
              PyFloat (round1 (round_double (sum_list (map Age (people_data ?b)))
                         (int (length (people_data ?b))))),
              int (card (State ` set (people_data ?b))))"
    by blast
  then have b: "get_statistics ?b = Inr (2, PyFloat 35, 1)"
    by (simp add: store_of_def aged_def example_floats)
  have "people_data ?c \<noteq> []" by (simp add: store_of_def)
  with get_statistics_rounding [OF hc] have "get_statistics ?c =
         Inr (int (length (people_data ?c)),
              PyFloat (round1 (round_double (sum_list (map Age (people_data ?c)))
                         (int (length (people_data ?c))))),
              int (card (State ` set (people_data ?c))))"
    by blast
  then have c: "get_statistics ?c = Inr (3, PyFloat 40, 2)"
    by (simp add: store_of_def aged_def example_floats example_states)
  have "\<not> is_tie (mean_age (people_data ?c))" by code_simp
  with get_statistics_rounding [OF hc]
  have "agrees (get_statistics ?c) (computeStatistics_spec HalfUp (people_data ?c))"
    by blast
  moreover have "computeStatistics_spec HalfUp (people_data ?c) = (3, 400, 2)"
    by code_simp
  ultimately have c': "agrees (get_statistics ?c) (3, 400, 2)" by simp
  have "round_double (sum_list (map Age (people_data ?d))) (int (length (people_data ?d)))
           = mean_age (people_data ?d)" by code_simp
  with get_statistics_rounding [OF hd]
  have "agrees (get_statistics ?d) (computeStatistics_spec HalfEven (people_data ?d))"
    by blast
  moreover have "computeStatistics_spec HalfEven (people_data ?d) = (4, 302, 1)"
    by code_simp
  ultimately have d: "agrees (get_statistics ?d) (4, 302, 1)" by simp
  from a b c c' d show ?thesis by blast
qed

lemma tie_example_floats: "round_double 301 10 \<noteq> round_double 302 10"
  by code_simp

text \<open>
  Claim C1 as stated fails: nineteen records of age 30 and one of age 33 have the mean
  30.15, which either rounding of the specification takes to 30.2; the float nearest to
  30.15 lies below it, and \<open>get_statistics\<close> returns 30.1.
\<close>

theorem average_follows_the_float:
  "get_statistics (store_of tie_example) = Inr (20, PyFloat (round_double 301 10), 1)
   \<and> computeStatistics_spec HalfEven tie_example = (20, 302, 1)
   \<and> computeStatistics_spec HalfUp tie_example = (20, 302, 1)
   \<and> \<not> agrees (get_statistics (store_of tie_example))
          (computeStatistics_spec HalfEven tie_example)
   \<and> \<not> agrees (get_statistics (store_of tie_example))
          (computeStatistics_spec HalfUp tie_example)"
proof -
  have g: "get_statistics (store_of tie_example) = Inr (20, PyFloat (round_double 301 10), 1)"
    by code_simp
  have e: "computeStatistics_spec HalfEven tie_example = (20, 302, 1)"
    by code_simp
  have u: "computeStatistics_spec HalfUp tie_example = (20, 302, 1)"
    by code_simp
  from tie_example_floats show ?thesis
    by (simp add: g e u agrees_def)
qed

end
